theory Spec2Isabelle
  imports Main "HOL-Library.Word" "HOL-Library.Monad_Syntax"
begin

section \<open>The expression language of SWP-Go-Examples.go\<close>

text \<open>
  The source declares an interface \<^verbatim>\<open>Exp\<close> with the methods \<^verbatim>\<open>pretty\<close> and
  \<^verbatim>\<open>eval\<close>, six types that implement it (\<^verbatim>\<open>Bool\<close>, \<^verbatim>\<open>Num\<close>, \<^verbatim>\<open>Mult\<close>,
  \<^verbatim>\<open>Plus\<close>, \<^verbatim>\<open>And\<close>, \<^verbatim>\<open>Or\<close>), and a result struct \<^verbatim>\<open>Val\<close>.

  Go's \<^verbatim>\<open>int\<close> is modelled at its width on the 64-bit targets: a \<open>64 word\<close>, on
  which \<open>+\<close> and \<open>*\<close> wrap around as Go's do, and which \<open>sint\<close> reads as a signed
  number.
\<close>

subsection \<open>Values\<close>

type_synonym go_int = "64 word"

text \<open>\<^verbatim>\<open>type Kind int\<close> with its three constants.\<close>

type_synonym Kind = go_int

definition ValueInt :: Kind where
  "ValueInt = 0"

definition ValueBool :: Kind where
  "ValueBool = 1"

definition Undefined :: Kind where
  "Undefined = 2"

text \<open>\<^verbatim>\<open>type Val struct { flag Kind; valI int; valB bool }\<close>\<close>

record Val =
  flag :: Kind
  valI :: go_int
  valB :: bool

text \<open>
  The three constructors of the source name some of the fields only; Go sets the fields
  that a composite literal leaves out to their zero value (\<open>0\<close>, \<open>False\<close>).
\<close>

definition mkInt :: "go_int \<Rightarrow> Val" where
  "mkInt x = \<lparr>flag = ValueInt, valI = x, valB = False\<rparr>"

definition mkBool :: "bool \<Rightarrow> Val" where
  "mkBool x = \<lparr>flag = ValueBool, valI = 0, valB = x\<rparr>"

definition mkUndefined :: Val where
  "mkUndefined = \<lparr>flag = Undefined, valI = 0, valB = False\<rparr>"

subsection \<open>Decimal rendering\<close>

text \<open>
  \<^verbatim>\<open>strconv.Itoa\<close> belongs to Go's standard library, not to the repository. It is
  modelled by what its documentation promises: the base 10 representation of the number,
  most significant digit first, with no leading zero, and a leading minus sign for a
  negative number.
\<close>

definition digit_char :: "nat \<Rightarrow> char" where
  "digit_char d = char_of (48 + d)"

function format_dec :: "nat \<Rightarrow> string" where
  "format_dec n = (if n < 10 then [digit_char n] else format_dec (n div 10) @ [digit_char (n mod 10)])"
  by pat_completeness auto
termination
  by (relation "measure (\<lambda>n. n)") auto

declare format_dec.simps [simp del]

definition Itoa :: "int \<Rightarrow> string" where
  "Itoa i = (if i < 0 then CHR ''-'' # format_dec (nat (- i)) else format_dec (nat i))"

subsection \<open>Expressions\<close>

text \<open>
  A value of the interface type \<^verbatim>\<open>Exp\<close> holds a value of one of the six implementing
  types, or it is Go's nil interface value, which is what \<open>Nil_Exp\<close> stands for. The
  binary nodes are arrays \<^verbatim>\<open>[2]Exp\<close>: the two constructor arguments are \<^verbatim>\<open>e[0]\<close>
  and \<^verbatim>\<open>e[1]\<close>.
\<close>

datatype Exp =
    Nil_Exp
  | Bool bool
  | Num go_int
  | Mult Exp Exp
  | Plus Exp Exp
  | And Exp Exp
  | Or Exp Exp

text \<open>
  The trees of the six node kinds, with no nil interface value at any position.
\<close>

fun nil_free :: "Exp \<Rightarrow> bool" where
  "nil_free Nil_Exp = False"
| "nil_free (Bool x) = True"
| "nil_free (Num x) = True"
| "nil_free (Mult e0 e1) = (nil_free e0 \<and> nil_free e1)"
| "nil_free (Plus e0 e1) = (nil_free e0 \<and> nil_free e1)"
| "nil_free (And e0 e1) = (nil_free e0 \<and> nil_free e1)"
| "nil_free (Or e0 e1) = (nil_free e0 \<and> nil_free e1)"

text \<open>The number of binary nodes of a tree.\<close>

fun binary_nodes :: "Exp \<Rightarrow> nat" where
  "binary_nodes Nil_Exp = 0"
| "binary_nodes (Bool x) = 0"
| "binary_nodes (Num x) = 0"
| "binary_nodes (Mult e0 e1) = Suc (binary_nodes e0 + binary_nodes e1)"
| "binary_nodes (Plus e0 e1) = Suc (binary_nodes e0 + binary_nodes e1)"
| "binary_nodes (And e0 e1) = Suc (binary_nodes e0 + binary_nodes e1)"
| "binary_nodes (Or e0 e1) = Suc (binary_nodes e0 + binary_nodes e1)"

subsection \<open>Pretty printer\<close>

text \<open>The methods of the two leaf types.\<close>

definition Bool_pretty :: "bool \<Rightarrow> string" where
  "Bool_pretty x = (if x then ''true'' else ''false'')"

definition Num_pretty :: "go_int \<Rightarrow> string" where
  "Num_pretty x = Itoa (sint x)"

text \<open>
  The method call through the interface. A call on the nil interface value panics: that
  is the result \<open>None\<close>. A binary node starts from the string \<^verbatim>\<open>"("\<close> and appends to
  it the rendering of \<^verbatim>\<open>e[0]\<close>, the operator, the rendering of \<^verbatim>\<open>e[1]\<close> and
  \<^verbatim>\<open>")"\<close>, in this order.
\<close>

fun pretty :: "Exp \<Rightarrow> string option" where
  "pretty Nil_Exp = None"
| "pretty (Bool x) = Some (Bool_pretty x)"
| "pretty (Num x) = Some (Num_pretty x)"
| "pretty (Mult e0 e1) = do {
     s0 \<leftarrow> pretty e0;
     s1 \<leftarrow> pretty e1;
     Some ((((''('' @ s0) @ ''*'') @ s1) @ '')'')
   }"
| "pretty (Plus e0 e1) = do {
     s0 \<leftarrow> pretty e0;
     s1 \<leftarrow> pretty e1;
     Some ((((''('' @ s0) @ ''+'') @ s1) @ '')'')
   }"
| "pretty (And e0 e1) = do {
     s0 \<leftarrow> pretty e0;
     s1 \<leftarrow> pretty e1;
     Some ((((''('' @ s0) @ ''&&'') @ s1) @ '')'')
   }"
| "pretty (Or e0 e1) = do {
     s0 \<leftarrow> pretty e0;
     s1 \<leftarrow> pretty e1;
     Some ((((''('' @ s0) @ ''||'') @ s1) @ '')'')
   }"

text \<open>
  \<^verbatim>\<open>showVal\<close>: a switch on the flag with no default case, so that a flag other than
  the three constants leaves \<^verbatim>\<open>s\<close> at the empty string it was declared with.
\<close>

definition showVal :: "Val \<Rightarrow> string" where
  "showVal v =
    (if flag v = ValueInt then Num_pretty (valI v)
     else if flag v = ValueBool then Bool_pretty (valB v)
     else if flag v = Undefined then ''Undefined''
     else [])"

subsection \<open>Evaluator\<close>

text \<open>
  Every binary node evaluates both children before it looks at either result, so a panic
  in either child is a panic of the node.
\<close>

fun eval :: "Exp \<Rightarrow> Val option" where
  "eval Nil_Exp = None"
| "eval (Bool x) = Some (mkBool x)"
| "eval (Num x) = Some (mkInt x)"
| "eval (Mult e0 e1) = do {
     n1 \<leftarrow> eval e0;
     n2 \<leftarrow> eval e1;
     if flag n1 = ValueInt \<and> flag n2 = ValueInt
     then Some (mkInt (valI n1 * valI n2))
     else Some mkUndefined
   }"
| "eval (Plus e0 e1) = do {
     n1 \<leftarrow> eval e0;
     n2 \<leftarrow> eval e1;
     if flag n1 = ValueInt \<and> flag n2 = ValueInt
     then Some (mkInt (valI n1 + valI n2))
     else Some mkUndefined
   }"
| "eval (And e0 e1) = do {
     b1 \<leftarrow> eval e0;
     b2 \<leftarrow> eval e1;
     if flag b1 = ValueBool \<and> valB b1 = False then Some (mkBool False)
     else if flag b1 = ValueBool \<and> flag b2 = ValueBool then Some (mkBool (valB b1 \<and> valB b2))
     else Some mkUndefined
   }"
| "eval (Or e0 e1) = do {
     b1 \<leftarrow> eval e0;
     b2 \<leftarrow> eval e1;
     if flag b1 = ValueBool \<and> valB b1 = True then Some (mkBool True)
     else if flag b1 = ValueBool \<and> flag b2 = ValueBool then Some (mkBool (valB b1 \<or> valB b2))
     else Some mkUndefined
   }"

text \<open>
  A \<open>Val\<close> is well formed when it is what one of the three constructors returns.
\<close>

definition is_Val :: "Val \<Rightarrow> bool" where
  "is_Val v = (v = mkInt (valI v) \<or> v = mkBool (valB v) \<or> v = mkUndefined)"

text \<open>
  The spec's \<open>IntVal(i)\<close>, \<open>BoolVal(b)\<close> and \<open>UndefinedVal\<close> are the values \<open>mkInt i\<close>,
  \<open>mkBool b\<close> and \<open>mkUndefined\<close>. A value is an \<open>IntVal\<close> when it is \<open>mkInt\<close> of its
  own integer field, and a \<open>BoolVal\<close> when it is \<open>mkBool\<close> of its own boolean field.
\<close>

definition is_IntVal :: "Val \<Rightarrow> bool" where
  "is_IntVal v = (v = mkInt (valI v))"

definition is_BoolVal :: "Val \<Rightarrow> bool" where
  "is_BoolVal v = (v = mkBool (valB v))"

subsection \<open>The two recursions on a bounded stack\<close>

text \<open>
  Both methods call themselves on the two children of a binary node, so a run nests one
  call for every level of the tree. Go grows the stack of a goroutine on demand, up to a
  maximum size (1 GB by default on the 64-bit targets); a call that needs more ends the
  program with the fatal error \<^verbatim>\<open>stack overflow\<close>, which cannot be recovered. The
  source sets no bound on the depth of a tree and has no check of its own. The functions
  \<open>pretty\<close> and \<open>eval\<close> above are the two recursions on a stack that suffices; the
  functions below are the same recursions with the stack made explicit.

  A run can end in two ways other than with a result.
\<close>

datatype failure = Nil_dereference | Stack_overflow

text \<open>
  The number of nested calls that a run on a tree needs: one for the method of the node,
  and those of its deepest child. A nil interface value has no method to enter.
\<close>

fun depth :: "Exp \<Rightarrow> nat" where
  "depth Nil_Exp = 0"
| "depth (Bool x) = 1"
| "depth (Num x) = 1"
| "depth (Mult e0 e1) = Suc (max (depth e0) (depth e1))"
| "depth (Plus e0 e1) = Suc (max (depth e0) (depth e1))"
| "depth (And e0 e1) = Suc (max (depth e0) (depth e1))"
| "depth (Or e0 e1) = Suc (max (depth e0) (depth e1))"

text \<open>
  The number of nested calls that the stack affords is a parameter, \<open>limit\<close>: it depends
  on the size of the frames and on the maximum that the runtime was given, neither of
  which the source fixes. \<open>pretty_within limit\<close> and \<open>eval_within limit\<close> are the two
  methods run with that many calls left. A call on the nil interface value panics before
  any method is entered; entering a method with no call left is the stack overflow;
  otherwise the body is that of \<open>pretty\<close> and \<open>eval\<close>, the children being run with one
  call less, \<^verbatim>\<open>e[0]\<close> before \<^verbatim>\<open>e[1]\<close>, and the first failure being the failure of
  the node.
\<close>

fun pretty_within :: "nat \<Rightarrow> Exp \<Rightarrow> failure + string" where
  "pretty_within limit Nil_Exp = Inl Nil_dereference"
| "pretty_within 0 e = Inl Stack_overflow"
| "pretty_within (Suc limit) (Bool x) = Inr (Bool_pretty x)"
| "pretty_within (Suc limit) (Num x) = Inr (Num_pretty x)"
| "pretty_within (Suc limit) (Mult e0 e1) =
     (case pretty_within limit e0 of Inl f \<Rightarrow> Inl f | Inr s0 \<Rightarrow>
      case pretty_within limit e1 of Inl f \<Rightarrow> Inl f | Inr s1 \<Rightarrow>
        Inr ((((''('' @ s0) @ ''*'') @ s1) @ '')''))"
| "pretty_within (Suc limit) (Plus e0 e1) =
     (case pretty_within limit e0 of Inl f \<Rightarrow> Inl f | Inr s0 \<Rightarrow>
      case pretty_within limit e1 of Inl f \<Rightarrow> Inl f | Inr s1 \<Rightarrow>
        Inr ((((''('' @ s0) @ ''+'') @ s1) @ '')''))"
| "pretty_within (Suc limit) (And e0 e1) =
     (case pretty_within limit e0 of Inl f \<Rightarrow> Inl f | Inr s0 \<Rightarrow>
      case pretty_within limit e1 of Inl f \<Rightarrow> Inl f | Inr s1 \<Rightarrow>
        Inr ((((''('' @ s0) @ ''&&'') @ s1) @ '')''))"
| "pretty_within (Suc limit) (Or e0 e1) =
     (case pretty_within limit e0 of Inl f \<Rightarrow> Inl f | Inr s0 \<Rightarrow>
      case pretty_within limit e1 of Inl f \<Rightarrow> Inl f | Inr s1 \<Rightarrow>
        Inr ((((''('' @ s0) @ ''||'') @ s1) @ '')''))"

fun eval_within :: "nat \<Rightarrow> Exp \<Rightarrow> failure + Val" where
  "eval_within limit Nil_Exp = Inl Nil_dereference"
| "eval_within 0 e = Inl Stack_overflow"
| "eval_within (Suc limit) (Bool x) = Inr (mkBool x)"
| "eval_within (Suc limit) (Num x) = Inr (mkInt x)"
| "eval_within (Suc limit) (Mult e0 e1) =
     (case eval_within limit e0 of Inl f \<Rightarrow> Inl f | Inr n1 \<Rightarrow>
      case eval_within limit e1 of Inl f \<Rightarrow> Inl f | Inr n2 \<Rightarrow>
        if flag n1 = ValueInt \<and> flag n2 = ValueInt
        then Inr (mkInt (valI n1 * valI n2))
        else Inr mkUndefined)"
| "eval_within (Suc limit) (Plus e0 e1) =
     (case eval_within limit e0 of Inl f \<Rightarrow> Inl f | Inr n1 \<Rightarrow>
      case eval_within limit e1 of Inl f \<Rightarrow> Inl f | Inr n2 \<Rightarrow>
        if flag n1 = ValueInt \<and> flag n2 = ValueInt
        then Inr (mkInt (valI n1 + valI n2))
        else Inr mkUndefined)"
| "eval_within (Suc limit) (And e0 e1) =
     (case eval_within limit e0 of Inl f \<Rightarrow> Inl f | Inr b1 \<Rightarrow>
      case eval_within limit e1 of Inl f \<Rightarrow> Inl f | Inr b2 \<Rightarrow>
        if flag b1 = ValueBool \<and> valB b1 = False then Inr (mkBool False)
        else if flag b1 = ValueBool \<and> flag b2 = ValueBool then Inr (mkBool (valB b1 \<and> valB b2))
        else Inr mkUndefined)"
| "eval_within (Suc limit) (Or e0 e1) =
     (case eval_within limit e0 of Inl f \<Rightarrow> Inl f | Inr b1 \<Rightarrow>
      case eval_within limit e1 of Inl f \<Rightarrow> Inl f | Inr b2 \<Rightarrow>
        if flag b1 = ValueBool \<and> valB b1 = True then Inr (mkBool True)
        else if flag b1 = ValueBool \<and> flag b2 = ValueBool then Inr (mkBool (valB b1 \<or> valB b2))
        else Inr mkUndefined)"

text \<open>
  A chain of \<open>n\<close> additions, each the left operand of the next: what
  \<^verbatim>\<open>plus(plus(... plus(number(0), number(1)) ..., number(1)), number(1))\<close> builds.
\<close>

fun deep :: "nat \<Rightarrow> Exp" where
  "deep 0 = Num 0"
| "deep (Suc n) = Plus (deep n) (Num 1)"

section \<open>Notions the properties are stated with\<close>

text \<open>
  Reading a decimal string back: the value of a string of digits, most significant digit
  first, and of a string with an optional leading minus sign.
\<close>

definition is_digit :: "char \<Rightarrow> bool" where
  "is_digit c = (48 \<le> (of_char c :: nat) \<and> (of_char c :: nat) \<le> 57)"

definition dec_value :: "string \<Rightarrow> nat" where
  "dec_value s = foldl (\<lambda>a c. 10 * a + (of_char c - 48)) 0 s"

definition parse_int :: "string \<Rightarrow> int" where
  "parse_int s = (case s of [] \<Rightarrow> 0
     | c # cs \<Rightarrow> if c = CHR ''-'' then - int (dec_value cs) else int (dec_value s))"

text \<open>
  The characters of the parentheses and of the four operator tokens.
\<close>

definition is_symbol :: "char \<Rightarrow> bool" where
  "is_symbol c = (c = CHR ''('' \<or> c = CHR '')'' \<or> c = CHR ''+'' \<or> c = CHR ''*''
                  \<or> c = CHR ''&'' \<or> c = CHR ''|'')"

text \<open>
  Scanning a string with a counter of the parentheses that are open: \<open>None\<close> when a
  closing parenthesis has no open one to match, and the number still open at the end
  otherwise. The parentheses of a string match when the scan from \<open>0\<close> ends at \<open>0\<close>.
\<close>

fun paren_depth :: "nat \<Rightarrow> string \<Rightarrow> nat option" where
  "paren_depth d [] = Some d"
| "paren_depth d (c # cs) =
     (if c = CHR ''('' then paren_depth (Suc d) cs
      else if c = CHR '')'' then (case d of 0 \<Rightarrow> None | Suc d' \<Rightarrow> paren_depth d' cs)
      else paren_depth d cs)"

text \<open>The number of nodes of each of the four binary kinds.\<close>

fun mult_nodes :: "Exp \<Rightarrow> nat" where
  "mult_nodes (Mult e0 e1) = Suc (mult_nodes e0 + mult_nodes e1)"
| "mult_nodes (Plus e0 e1) = mult_nodes e0 + mult_nodes e1"
| "mult_nodes (And e0 e1) = mult_nodes e0 + mult_nodes e1"
| "mult_nodes (Or e0 e1) = mult_nodes e0 + mult_nodes e1"
| "mult_nodes e = 0"

fun plus_nodes :: "Exp \<Rightarrow> nat" where
  "plus_nodes (Mult e0 e1) = plus_nodes e0 + plus_nodes e1"
| "plus_nodes (Plus e0 e1) = Suc (plus_nodes e0 + plus_nodes e1)"
| "plus_nodes (And e0 e1) = plus_nodes e0 + plus_nodes e1"
| "plus_nodes (Or e0 e1) = plus_nodes e0 + plus_nodes e1"
| "plus_nodes e = 0"

fun and_nodes :: "Exp \<Rightarrow> nat" where
  "and_nodes (Mult e0 e1) = and_nodes e0 + and_nodes e1"
| "and_nodes (Plus e0 e1) = and_nodes e0 + and_nodes e1"
| "and_nodes (And e0 e1) = Suc (and_nodes e0 + and_nodes e1)"
| "and_nodes (Or e0 e1) = and_nodes e0 + and_nodes e1"
| "and_nodes e = 0"

fun or_nodes :: "Exp \<Rightarrow> nat" where
  "or_nodes (Mult e0 e1) = or_nodes e0 + or_nodes e1"
| "or_nodes (Plus e0 e1) = or_nodes e0 + or_nodes e1"
| "or_nodes (And e0 e1) = or_nodes e0 + or_nodes e1"
| "or_nodes (Or e0 e1) = Suc (or_nodes e0 + or_nodes e1)"
| "or_nodes e = 0"

section \<open>Basic facts\<close>

lemma flags_distinct [simp]:
  "ValueInt \<noteq> ValueBool" "ValueInt \<noteq> Undefined" "ValueBool \<noteq> Undefined"
  "ValueBool \<noteq> ValueInt" "Undefined \<noteq> ValueInt" "Undefined \<noteq> ValueBool"
  by (simp_all add: ValueInt_def ValueBool_def Undefined_def)

lemma mk_fields [simp]:
  "flag (mkInt x) = ValueInt" "valI (mkInt x) = x" "valB (mkInt x) = False"
  "flag (mkBool b) = ValueBool" "valI (mkBool b) = 0" "valB (mkBool b) = b"
  "flag mkUndefined = Undefined" "valI mkUndefined = 0" "valB mkUndefined = False"
  by (simp_all add: mkInt_def mkBool_def mkUndefined_def)

lemma is_Val_mk [simp]: "is_Val (mkInt x)" "is_Val (mkBool b)" "is_Val mkUndefined"
  by (simp_all add: is_Val_def)

lemma is_Val_cases:
  assumes "is_Val v"
  obtains (Int) i where "v = mkInt i" | (Bool) b where "v = mkBool b" | (Undef) "v = mkUndefined"
  using assms unfolding is_Val_def by blast

lemmas mk_defs = mkInt_def mkBool_def mkUndefined_def ValueInt_def ValueBool_def Undefined_def

lemma is_IntVal_flag: "is_Val v \<Longrightarrow> is_IntVal v \<longleftrightarrow> flag v = ValueInt"
  by (erule is_Val_cases) (auto simp: is_IntVal_def mk_defs)

lemma is_BoolVal_flag: "is_Val v \<Longrightarrow> is_BoolVal v \<longleftrightarrow> flag v = ValueBool"
  by (erule is_Val_cases) (auto simp: is_BoolVal_def mk_defs)

lemma mkBool_False_iff:
  "is_Val v \<Longrightarrow> v = mkBool False \<longleftrightarrow> flag v = ValueBool \<and> valB v = False"
  by (erule is_Val_cases) (auto simp: mk_defs)

lemma mkBool_True_iff:
  "is_Val v \<Longrightarrow> v = mkBool True \<longleftrightarrow> flag v = ValueBool \<and> valB v = True"
  by (erule is_Val_cases) (auto simp: mk_defs)

subsection \<open>The evaluator returns well-formed values, on exactly the nil-free trees\<close>

lemma eval_is_Val: "eval e = Some v \<Longrightarrow> is_Val v"
proof (induction e arbitrary: v)
  case (Mult e0 e1)
  then show ?case by (auto split: bind_splits if_splits)
next
  case (Plus e0 e1)
  then show ?case by (auto split: bind_splits if_splits)
next
  case (And e0 e1)
  then show ?case by (auto split: bind_splits if_splits)
next
  case (Or e0 e1)
  then show ?case by (auto split: bind_splits if_splits)
qed auto

lemma eval_nil_free: "nil_free e \<Longrightarrow> \<exists>v. eval e = Some v"
  by (induction e) auto

lemma eval_Some_nil_free: "eval e = Some v \<Longrightarrow> nil_free e"
  by (induction e arbitrary: v) (auto split: bind_splits)

lemma pretty_nil_free: "nil_free e \<Longrightarrow> \<exists>s. pretty e = Some s"
  by (induction e) auto

lemma pretty_Some_nil_free: "pretty e = Some s \<Longrightarrow> nil_free e"
  by (induction e arbitrary: s) (auto split: bind_splits)

lemma eval_nil_free_Val: "nil_free e \<Longrightarrow> \<exists>v. eval e = Some v \<and> is_Val v"
  using eval_nil_free eval_is_Val by blast

subsection \<open>On a bounded stack: a result within the limit, a stack overflow beyond it\<close>

lemma nil_free_deep: "nil_free (deep n)"
  by (induction n) auto

lemma depth_deep: "depth (deep n) = Suc n"
  by (induction n) auto

lemma eval_within_nil_free:
  "nil_free e \<Longrightarrow>
     (depth e \<le> limit \<longrightarrow> (\<exists>v. eval_within limit e = Inr v \<and> eval e = Some v))
     \<and> (limit < depth e \<longrightarrow> eval_within limit e = Inl Stack_overflow)"
proof (induction limit e rule: eval_within.induct)
  case (5 limit e0 e1)
  then show ?case by (cases "depth e0 \<le> limit"; cases "depth e1 \<le> limit") auto
next
  case (6 limit e0 e1)
  then show ?case by (cases "depth e0 \<le> limit"; cases "depth e1 \<le> limit") auto
next
  case (7 limit e0 e1)
  then show ?case by (cases "depth e0 \<le> limit"; cases "depth e1 \<le> limit") auto
next
  case (8 limit e0 e1)
  then show ?case by (cases "depth e0 \<le> limit"; cases "depth e1 \<le> limit") auto
qed auto

lemma pretty_within_nil_free:
  "nil_free e \<Longrightarrow>
     (depth e \<le> limit \<longrightarrow> (\<exists>s. pretty_within limit e = Inr s \<and> pretty e = Some s))
     \<and> (limit < depth e \<longrightarrow> pretty_within limit e = Inl Stack_overflow)"
proof (induction limit e rule: pretty_within.induct)
  case (5 limit e0 e1)
  then show ?case by (cases "depth e0 \<le> limit"; cases "depth e1 \<le> limit") auto
next
  case (6 limit e0 e1)
  then show ?case by (cases "depth e0 \<le> limit"; cases "depth e1 \<le> limit") auto
next
  case (7 limit e0 e1)
  then show ?case by (cases "depth e0 \<le> limit"; cases "depth e1 \<le> limit") auto
next
  case (8 limit e0 e1)
  then show ?case by (cases "depth e0 \<le> limit"; cases "depth e1 \<le> limit") auto
qed auto

lemma overflow_for_any_stack:
  "\<exists>e. nil_free e \<and> eval_within limit e = Inl Stack_overflow
       \<and> pretty_within limit e = Inl Stack_overflow"
proof -
  have "limit < depth (deep limit)"
    by (simp add: depth_deep)
  then show ?thesis
    using eval_within_nil_free [of "deep limit" limit] pretty_within_nil_free [of "deep limit" limit]
      nil_free_deep [of limit]
    by blast
qed

section \<open>The evaluation rules\<close>

text \<open>
  C1. Let the two children of an \<open>And\<close> node evaluate to \<open>v1\<close> and \<open>v2\<close>. If \<open>v1\<close> is
  \<open>BoolVal(false)\<close> the node is \<open>BoolVal(false)\<close>, whatever \<open>v2\<close> is; otherwise, if both are
  \<open>BoolVal\<close>, it is the \<open>BoolVal\<close> of their conjunction; in every remaining case it is
  \<open>UndefinedVal\<close>. In particular \<open>And(Bool(false), Num(1))\<close> evaluates to \<open>BoolVal(false)\<close>.
\<close>

theorem And_eval_rule:
  assumes "eval l = Some v1" and "eval r = Some v2"
  shows "eval (And l r) =
           Some (if v1 = mkBool False then mkBool False
                 else if is_BoolVal v1 \<and> is_BoolVal v2 then mkBool (valB v1 \<and> valB v2)
                 else mkUndefined)
         \<and> eval (And (Bool False) (Num 1)) = Some (mkBool False)"
proof -
  have w1: "is_Val v1" and w2: "is_Val v2"
    using assms by (auto dest: eval_is_Val)
  show ?thesis
    using assms
    by (simp add: mkBool_False_iff [OF w1] is_BoolVal_flag [OF w1] is_BoolVal_flag [OF w2])
qed

theorem And_eval_rule_witness:
  "eval (Bool False) = Some (mkBool False)
   \<and> eval (Plus (Bool True) (Num 1)) = Some mkUndefined
   \<and> eval (And (Bool False) (Plus (Bool True) (Num 1))) = Some (mkBool False)"
  using And_eval_rule [of "Bool False" "mkBool False" "Plus (Bool True) (Num 1)" mkUndefined]
  by simp

text \<open>
  C2. Let the two children of an \<open>Or\<close> node evaluate to \<open>v1\<close> and \<open>v2\<close>. If \<open>v1\<close> is
  \<open>BoolVal(true)\<close> the node is \<open>BoolVal(true)\<close>, whatever \<open>v2\<close> is; otherwise, if both are
  \<open>BoolVal\<close>, it is the \<open>BoolVal\<close> of their disjunction; in every remaining case it is
  \<open>UndefinedVal\<close>. The three examples of the spec are instances.
\<close>

theorem Or_eval_rule:
  assumes "eval l = Some v1" and "eval r = Some v2"
  shows "eval (Or l r) =
           Some (if v1 = mkBool True then mkBool True
                 else if is_BoolVal v1 \<and> is_BoolVal v2 then mkBool (valB v1 \<or> valB v2)
                 else mkUndefined)
         \<and> eval (Or (Bool True) (Num 1)) = Some (mkBool True)
         \<and> eval (Or (Bool False) (Bool False)) = Some (mkBool False)
         \<and> eval (Or (Bool False) (Num 1)) = Some mkUndefined"
proof -
  have w1: "is_Val v1" and w2: "is_Val v2"
    using assms by (auto dest: eval_is_Val)
  show ?thesis
    using assms
    by (simp add: mkBool_True_iff [OF w1] is_BoolVal_flag [OF w1] is_BoolVal_flag [OF w2])
qed

theorem Or_eval_rule_witness:
  "eval (Bool True) = Some (mkBool True)
   \<and> eval (Mult (Num 2) (Bool False)) = Some mkUndefined
   \<and> eval (Or (Bool True) (Mult (Num 2) (Bool False))) = Some (mkBool True)"
  using Or_eval_rule [of "Bool True" "mkBool True" "Mult (Num 2) (Bool False)" mkUndefined]
  by simp

text \<open>
  C3. Let the two children of a \<open>Plus\<close> or \<open>Mult\<close> node evaluate to \<open>v1\<close> and \<open>v2\<close>. The
  node is the \<open>IntVal\<close> of the sum (of the product) when both are \<open>IntVal\<close>, and
  \<open>UndefinedVal\<close> in every other case; nothing is masked. In particular
  \<open>Plus(Bool(true), Num(1))\<close> evaluates to \<open>UndefinedVal\<close>.
\<close>

theorem arith_eval_rule:
  assumes "eval l = Some v1" and "eval r = Some v2"
  shows "eval (Plus l r) =
           Some (if is_IntVal v1 \<and> is_IntVal v2 then mkInt (valI v1 + valI v2) else mkUndefined)
         \<and> eval (Mult l r) =
           Some (if is_IntVal v1 \<and> is_IntVal v2 then mkInt (valI v1 * valI v2) else mkUndefined)
         \<and> eval (Plus (Bool True) (Num 1)) = Some mkUndefined"
proof -
  have w1: "is_Val v1" and w2: "is_Val v2"
    using assms by (auto dest: eval_is_Val)
  show ?thesis
    using assms by (simp add: is_IntVal_flag [OF w1] is_IntVal_flag [OF w2])
qed

theorem arith_eval_rule_witness:
  "eval (Num 3) = Some (mkInt 3)
   \<and> eval (And (Bool True) (Bool True)) = Some (mkBool True)
   \<and> eval (Plus (Num 3) (And (Bool True) (Bool True))) = Some mkUndefined
   \<and> eval (Mult (Num 3) (And (Bool True) (Bool True))) = Some mkUndefined"
  using arith_eval_rule [of "Num 3" "mkInt 3" "And (Bool True) (Bool True)" "mkBool True"]
  by (simp add: is_BoolVal_def is_IntVal_def mk_defs)

text \<open>
  C4. On two integer literals \<open>Plus\<close> returns the \<open>IntVal\<close> of their sum and \<open>Mult\<close> the
  \<open>IntVal\<close> of their product, where sum and product are those of the machine integer: they
  wrap around modulo \<open>2 ^ 64\<close>, so that the largest integer plus one is the smallest.
\<close>

theorem arith_literals:
  "eval (Plus (Num a) (Num b)) = Some (mkInt (a + b))
   \<and> eval (Mult (Num a) (Num b)) = Some (mkInt (a * b))
   \<and> uint (a + b) = (uint a + uint b) mod 2 ^ 64
   \<and> uint (a * b) = (uint a * uint b) mod 2 ^ 64
   \<and> sint (a + b) = signed_take_bit 63 (sint a + sint b)
   \<and> sint (a * b) = signed_take_bit 63 (sint a * sint b)
   \<and> eval (Plus (Num 9223372036854775807) (Num 1)) = Some (mkInt (- 9223372036854775808))"
  by (simp add: uint_word_ariths sint_word_ariths)

text \<open>
  C10. Masking is left-biased. When the left child of an \<open>And\<close> or \<open>Or\<close> node evaluates to
  a value that is not a \<open>BoolVal\<close>, the node is \<open>UndefinedVal\<close> whatever the right child
  evaluates to, a deciding boolean included: \<open>And(Num(1), Bool(false))\<close> is \<open>UndefinedVal\<close>
  while the mirrored tree is \<open>BoolVal(false)\<close>.
\<close>

theorem left_biased:
  assumes "eval l = Some v1" and "eval r = Some v2" and "\<not> is_BoolVal v1"
  shows "eval (And l r) = Some mkUndefined \<and> eval (Or l r) = Some mkUndefined
         \<and> eval (And (Num 1) (Bool False)) = Some mkUndefined
         \<and> eval (And (Bool False) (Num 1)) = Some (mkBool False)
         \<and> eval (Or (Num 1) (Bool True)) = Some mkUndefined
         \<and> eval (Or (Bool True) (Num 1)) = Some (mkBool True)"
proof -
  have w1: "is_Val v1"
    using assms by (auto dest: eval_is_Val)
  show ?thesis
    using assms by (simp add: is_BoolVal_flag [OF w1])
qed

theorem left_biased_witness:
  "eval (Num 1) = Some (mkInt 1) \<and> eval (Bool False) = Some (mkBool False)
   \<and> \<not> is_BoolVal (mkInt 1)
   \<and> eval (And (Num 1) (Bool False)) = Some mkUndefined
   \<and> eval (Or (Num 1) (Bool False)) = Some mkUndefined"
  using left_biased [of "Num 1" "mkInt 1" "Bool False" "mkBool False"]
  by (simp add: is_BoolVal_def mk_defs)

section \<open>Totality and the error representation\<close>




text \<open>
  C8. Whatever \<open>eval\<close> returns is one of \<open>IntVal\<close>, \<open>BoolVal\<close>, \<open>UndefinedVal\<close>, with one of
  the three flags. When both children of a node return, the node returns too, and a
  well-formed value: an undefined child never makes its parent fail. An \<open>UndefinedVal\<close>
  child makes a \<open>Plus\<close> or \<open>Mult\<close> node \<open>UndefinedVal\<close>, on either side; it makes an
  \<open>And\<close> or \<open>Or\<close> node \<open>UndefinedVal\<close> on the left, and on the right unless the left
  child is the deciding boolean, which then is the result.
\<close>

theorem undefined_is_data:
  assumes "eval l = Some v1" and "eval r = Some v2"
  shows "is_Val v1 \<and> is_Val v2
         \<and> (flag v1 = ValueInt \<or> flag v1 = ValueBool \<or> flag v1 = Undefined)
         \<and> (\<exists>v. eval (Plus l r) = Some v \<and> is_Val v)
         \<and> (\<exists>v. eval (Mult l r) = Some v \<and> is_Val v)
         \<and> (\<exists>v. eval (And l r) = Some v \<and> is_Val v)
         \<and> (\<exists>v. eval (Or l r) = Some v \<and> is_Val v)
         \<and> (v1 = mkUndefined \<or> v2 = mkUndefined \<longrightarrow>
              eval (Plus l r) = Some mkUndefined \<and> eval (Mult l r) = Some mkUndefined)
         \<and> (v1 = mkUndefined \<longrightarrow>
              eval (And l r) = Some mkUndefined \<and> eval (Or l r) = Some mkUndefined)
         \<and> (v2 = mkUndefined \<longrightarrow>
              eval (And l r) = Some (if v1 = mkBool False then mkBool False else mkUndefined)
              \<and> eval (Or l r) = Some (if v1 = mkBool True then mkBool True else mkUndefined))"
proof -
  have w1: "is_Val v1" and w2: "is_Val v2"
    using assms by (auto dest: eval_is_Val)
  have f1: "flag v1 = ValueInt \<or> flag v1 = ValueBool \<or> flag v1 = Undefined"
    using w1 by (auto elim: is_Val_cases)
  have nl: "nil_free l" and nr: "nil_free r"
    using assms by (auto dest: eval_Some_nil_free)
  have ex: "\<exists>v. eval (Plus l r) = Some v \<and> is_Val v" "\<exists>v. eval (Mult l r) = Some v \<and> is_Val v"
    "\<exists>v. eval (And l r) = Some v \<and> is_Val v" "\<exists>v. eval (Or l r) = Some v \<and> is_Val v"
    by (rule eval_nil_free_Val, simp add: nl nr)+
  have ar: "v1 = mkUndefined \<or> v2 = mkUndefined \<Longrightarrow>
      eval (Plus l r) = Some mkUndefined \<and> eval (Mult l r) = Some mkUndefined"
    using assms by auto
  have lg1: "v1 = mkUndefined \<Longrightarrow>
      eval (And l r) = Some mkUndefined \<and> eval (Or l r) = Some mkUndefined"
    using assms by auto
  have lg2: "v2 = mkUndefined \<Longrightarrow>
      eval (And l r) = Some (if v1 = mkBool False then mkBool False else mkUndefined)
      \<and> eval (Or l r) = Some (if v1 = mkBool True then mkBool True else mkUndefined)"
    using assms by (simp add: mkBool_False_iff [OF w1] mkBool_True_iff [OF w1])
  show ?thesis
    using w1 w2 f1 ex ar lg1 lg2 by simp
qed

theorem undefined_is_data_witness:
  "eval (Plus (Bool True) (Num 1)) = Some mkUndefined
   \<and> eval (Bool False) = Some (mkBool False)
   \<and> eval (Plus (Plus (Bool True) (Num 1)) (Bool False)) = Some mkUndefined
   \<and> eval (Mult (Bool False) (Plus (Bool True) (Num 1))) = Some mkUndefined
   \<and> eval (And (Plus (Bool True) (Num 1)) (Bool False)) = Some mkUndefined
   \<and> eval (Or (Plus (Bool True) (Num 1)) (Bool False)) = Some mkUndefined
   \<and> eval (And (Bool False) (Plus (Bool True) (Num 1))) = Some (mkBool False)
   \<and> eval (Or (Bool False) (Plus (Bool True) (Num 1))) = Some mkUndefined"
  using undefined_is_data [of "Plus (Bool True) (Num 1)" mkUndefined "Bool False" "mkBool False"]
    undefined_is_data [of "Bool False" "mkBool False" "Plus (Bool True) (Num 1)" mkUndefined]
  by simp

section \<open>The printer\<close>

subsection \<open>Decimal strings\<close>

lemma digit_char_of_char: "d < 10 \<Longrightarrow> (of_char (digit_char d) :: nat) = 48 + d"
  by (simp add: digit_char_def)

lemma digit_char_is_digit: "d < 10 \<Longrightarrow> is_digit (digit_char d)"
  by (simp add: is_digit_def digit_char_of_char)

lemma format_dec_digits: "c \<in> set (format_dec n) \<Longrightarrow> is_digit c"
proof (induction n arbitrary: c rule: format_dec.induct)
  case (1 n)
  show ?case
  proof (cases "n < 10")
    case True
    with "1.prems" show ?thesis
      by (subst (asm) format_dec.simps) (simp add: digit_char_is_digit)
  next
    case False
    with "1.prems" have "c \<in> set (format_dec (n div 10)) \<or> c = digit_char (n mod 10)"
      by (subst (asm) format_dec.simps) auto
    with False "1.IH" show ?thesis
      by (auto simp: digit_char_is_digit)
  qed
qed

lemma format_dec_not_Nil: "format_dec n \<noteq> []"
  by (subst format_dec.simps) simp

lemma dec_value_snoc: "dec_value (s @ [c]) = 10 * dec_value s + (of_char c - 48)"
  by (simp add: dec_value_def)

lemma dec_value_format_dec: "dec_value (format_dec n) = n"
proof (induction n rule: format_dec.induct)
  case (1 n)
  show ?case
  proof (cases "n < 10")
    case True
    then show ?thesis
      by (subst format_dec.simps) (simp add: dec_value_def digit_char_of_char)
  next
    case False
    with "1.IH" have "dec_value (format_dec (n div 10)) = n div 10"
      by simp
    with False show ?thesis
      by (subst format_dec.simps) (simp add: dec_value_snoc digit_char_of_char)
  qed
qed

lemma is_digit_not_minus: "is_digit c \<Longrightarrow> c \<noteq> CHR ''-''"
  by (auto simp: is_digit_def)

lemma parse_int_Itoa: "parse_int (Itoa i) = i"
proof (cases "i < 0")
  case True
  then show ?thesis
    by (simp add: Itoa_def parse_int_def dec_value_format_dec)
next
  case False
  obtain c cs where cs: "format_dec (nat i) = c # cs"
    using format_dec_not_Nil by (cases "format_dec (nat i)") auto
  then have "is_digit c"
    using format_dec_digits [of c "nat i"] by simp
  then have "c \<noteq> CHR ''-''"
    by (rule is_digit_not_minus)
  moreover have "dec_value (c # cs) = nat i"
    using dec_value_format_dec [of "nat i"] cs by simp
  ultimately show ?thesis
    using False cs by (simp add: Itoa_def parse_int_def)
qed

lemma Itoa_chars: "c \<in> set (Itoa i) \<Longrightarrow> is_digit c \<or> c = CHR ''-''"
  by (auto simp: Itoa_def dest: format_dec_digits split: if_splits)

lemma format_dec_no_leading_zero: "0 < n \<Longrightarrow> hd (format_dec n) \<noteq> CHR ''0''"
proof (induction n rule: format_dec.induct)
  case (1 n)
  show ?case
  proof (cases "n < 10")
    case True
    with "1.prems" have "(of_char (digit_char n) :: nat) \<noteq> of_char CHR ''0''"
      by (simp add: digit_char_of_char)
    then have "digit_char n \<noteq> CHR ''0''"
      by auto
    with True show ?thesis
      by (subst format_dec.simps) simp
  next
    case False
    then have "hd (format_dec (n div 10)) \<noteq> CHR ''0''"
      using "1.IH" by simp
    with False show ?thesis
      by (subst format_dec.simps) (simp add: format_dec_not_Nil)
  qed
qed

subsection \<open>Parentheses and operator characters\<close>

lemma binary_nodes_sum:
  "binary_nodes e = mult_nodes e + plus_nodes e + and_nodes e + or_nodes e"
  by (induction e) auto

lemma is_digit_not_symbol: "is_digit c \<Longrightarrow> \<not> is_symbol c"
  by (auto simp: is_digit_def is_symbol_def)

lemma Itoa_no_symbol: "is_symbol c \<Longrightarrow> c \<notin> set (Itoa i)"
  using Itoa_chars [of c i] is_digit_not_symbol [of c] by (auto simp: is_symbol_def)

lemma Itoa_count: "is_symbol c \<Longrightarrow> count_list (Itoa i) c = 0"
  by (simp add: Itoa_no_symbol)

lemma Bool_pretty_count: "is_symbol c \<Longrightarrow> count_list (Bool_pretty x) c = 0"
  by (auto simp: Bool_pretty_def is_symbol_def)

lemma pretty_count:
  assumes "pretty e = Some s"
  shows "count_list s CHR ''('' = binary_nodes e"
    and "count_list s CHR '')'' = binary_nodes e"
    and "count_list s CHR ''*'' = mult_nodes e"
    and "count_list s CHR ''+'' = plus_nodes e"
    and "count_list s CHR ''&'' = 2 * and_nodes e"
    and "count_list s CHR ''|'' = 2 * or_nodes e"
  using assms
  by (induction e arbitrary: s)
     (auto simp: Num_pretty_def Itoa_count Bool_pretty_count is_symbol_def split: bind_splits)

lemma paren_depth_skip:
  "\<forall>c \<in> set s. \<not> is_symbol c \<Longrightarrow> paren_depth d (s @ t) = paren_depth d t"
  by (induction s arbitrary: d) (auto simp: is_symbol_def)

lemma paren_depth_Itoa: "paren_depth d (Itoa i @ t) = paren_depth d t"
  by (rule paren_depth_skip) (auto dest: Itoa_no_symbol)

lemma paren_depth_Bool: "paren_depth d (Bool_pretty x @ t) = paren_depth d t"
  by (simp add: Bool_pretty_def)

lemma paren_depth_pretty:
  "pretty e = Some s \<Longrightarrow> paren_depth d (s @ t) = paren_depth d t"
proof (induction e arbitrary: s d t)
  case (Bool x)
  then show ?case by (auto simp: paren_depth_Bool)
next
  case (Num x)
  then show ?case by (auto simp: Num_pretty_def paren_depth_Itoa)
next
  case (Mult e0 e1)
  then show ?case by (auto split: bind_splits)
next
  case (Plus e0 e1)
  then show ?case by (auto split: bind_splits)
next
  case (And e0 e1)
  then show ?case by (auto split: bind_splits)
next
  case (Or e0 e1)
  then show ?case by (auto split: bind_splits)
qed simp

lemma pretty_balanced: "pretty e = Some s \<Longrightarrow> paren_depth 0 s = Some 0"
  using paren_depth_pretty [of e s 0 "[]"] by simp

lemma Itoa_not_Undefined: "Itoa i \<noteq> ''Undefined''"
proof
  assume "Itoa i = ''Undefined''"
  then have "CHR ''U'' \<in> set (Itoa i)"
    by simp
  then have "is_digit CHR ''U'' \<or> CHR ''U'' = CHR ''-''"
    by (rule Itoa_chars)
  then show False
    by (simp add: is_digit_def)
qed

lemma showVal_Undefined_iff:
  assumes "is_Val v"
  shows "showVal v = ''Undefined'' \<longleftrightarrow> v = mkUndefined"
  using assms
  by (cases v rule: is_Val_cases)
     (auto simp: showVal_def Num_pretty_def Bool_pretty_def Itoa_not_Undefined mk_defs)

subsection \<open>Properties of the printer and of showVal\<close>

text \<open>
  C5. \<open>pretty\<close> follows the structure of the tree. \<open>Num(i)\<close> renders as the decimal string
  of \<open>i\<close> (read as a signed number; reading the string back gives the number), \<open>Bool(b)\<close>
  as \<open>true\<close> or \<open>false\<close>, and a binary node whose children render as \<open>s\<close> and \<open>t\<close> as
  an opening parenthesis, \<open>s\<close>, the operator of the node kind, \<open>t\<close> and a closing
  parenthesis. In particular \<open>Plus(Mult(Num(1),Num(2)), Num(0))\<close> renders as
  \<open>((1*2)+0)\<close>.
\<close>

theorem pretty_structure:
  assumes "pretty l = Some s" and "pretty r = Some t"
  shows "pretty (Num i) = Some (Itoa (sint i))
         \<and> parse_int (Itoa (sint i)) = sint i
         \<and> pretty (Bool True) = Some ''true''
         \<and> pretty (Bool False) = Some ''false''
         \<and> pretty (Plus l r) = Some (''('' @ s @ ''+'' @ t @ '')'')
         \<and> pretty (Mult l r) = Some (''('' @ s @ ''*'' @ t @ '')'')
         \<and> pretty (And l r) = Some (''('' @ s @ ''&&'' @ t @ '')'')
         \<and> pretty (Or l r) = Some (''('' @ s @ ''||'' @ t @ '')'')
         \<and> pretty (Plus (Mult (Num 1) (Num 2)) (Num 0)) = Some ''((1*2)+0)''
         \<and> pretty (Num (- 120)) = Some ''-120''"
proof -
  have ex: "pretty (Plus (Mult (Num 1) (Num 2)) (Num 0)) = Some ''((1*2)+0)''"
    by code_simp
  have neg: "pretty (Num (- 120)) = Some ''-120''"
    by code_simp
  show ?thesis
    using assms ex neg by (simp add: Num_pretty_def Bool_pretty_def parse_int_Itoa)
qed

theorem pretty_structure_witness:
  "pretty (Mult (Num 1) (Num 2)) = Some ''(1*2)'' \<and> pretty (Num 0) = Some ''0''
   \<and> pretty (Plus (Mult (Num 1) (Num 2)) (Num 0)) = Some ''((1*2)+0)''
   \<and> pretty (And (Mult (Num 1) (Num 2)) (Num 0)) = Some ''((1*2)&&0)''"
proof -
  have l: "pretty (Mult (Num 1) (Num 2)) = Some ''(1*2)''"
    by code_simp
  have r: "pretty (Num 0) = Some ''0''"
    by code_simp
  show ?thesis
    using pretty_structure [OF l r] l r by simp
qed

text \<open>
  C7. On every tree that \<open>pretty\<close> can render (no nil interface value in it, depth within
  what the stack affords), \<open>pretty\<close> does return a string, and the string has as many
  opening parentheses as the tree has binary nodes, and as many closing ones, and they
  match. It has one \<open>*\<close> for every \<open>Mult\<close> node, one \<open>+\<close> for every \<open>Plus\<close> node, one
  \<open>&&\<close> for every \<open>And\<close> node and one \<open>||\<close> for every \<open>Or\<close> node, which together are
  the binary nodes. The rendering of a binary node is its operator token between the
  renderings of its two children, inside one pair of parentheses.
\<close>

theorem pretty_shape:
  assumes "nil_free e" and "depth e \<le> limit"
  shows "\<exists>s. pretty_within limit e = Inr s \<and> pretty e = Some s
           \<and> count_list s CHR ''('' = binary_nodes e
           \<and> count_list s CHR '')'' = binary_nodes e
           \<and> paren_depth 0 s = Some 0
           \<and> count_list s CHR ''*'' = mult_nodes e
           \<and> count_list s CHR ''+'' = plus_nodes e
           \<and> count_list s CHR ''&'' = 2 * and_nodes e
           \<and> count_list s CHR ''|'' = 2 * or_nodes e
           \<and> binary_nodes e = mult_nodes e + plus_nodes e + and_nodes e + or_nodes e
           \<and> (case e of
                Mult e0 e1 \<Rightarrow> \<exists>s0 s1. pretty e0 = Some s0 \<and> pretty e1 = Some s1
                                      \<and> s = ''('' @ s0 @ ''*'' @ s1 @ '')''
              | Plus e0 e1 \<Rightarrow> \<exists>s0 s1. pretty e0 = Some s0 \<and> pretty e1 = Some s1
                                      \<and> s = ''('' @ s0 @ ''+'' @ s1 @ '')''
              | And e0 e1 \<Rightarrow> \<exists>s0 s1. pretty e0 = Some s0 \<and> pretty e1 = Some s1
                                      \<and> s = ''('' @ s0 @ ''&&'' @ s1 @ '')''
              | Or e0 e1 \<Rightarrow> \<exists>s0 s1. pretty e0 = Some s0 \<and> pretty e1 = Some s1
                                      \<and> s = ''('' @ s0 @ ''||'' @ s1 @ '')''
              | _ \<Rightarrow> True)"
proof -
  obtain s where w: "pretty_within limit e = Inr s" and p: "pretty e = Some s"
    using assms pretty_within_nil_free [of e limit] by blast
  have shape: "(case e of
                Mult e0 e1 \<Rightarrow> \<exists>s0 s1. pretty e0 = Some s0 \<and> pretty e1 = Some s1
                                      \<and> s = ''('' @ s0 @ ''*'' @ s1 @ '')''
              | Plus e0 e1 \<Rightarrow> \<exists>s0 s1. pretty e0 = Some s0 \<and> pretty e1 = Some s1
                                      \<and> s = ''('' @ s0 @ ''+'' @ s1 @ '')''
              | And e0 e1 \<Rightarrow> \<exists>s0 s1. pretty e0 = Some s0 \<and> pretty e1 = Some s1
                                      \<and> s = ''('' @ s0 @ ''&&'' @ s1 @ '')''
              | Or e0 e1 \<Rightarrow> \<exists>s0 s1. pretty e0 = Some s0 \<and> pretty e1 = Some s1
                                      \<and> s = ''('' @ s0 @ ''||'' @ s1 @ '')''
              | _ \<Rightarrow> True)"
    using p by (cases e) (auto split: bind_splits)
  show ?thesis
    using w p pretty_count [OF p] pretty_balanced [OF p] binary_nodes_sum [of e] shape
    by (intro exI [of _ s]) simp
qed

theorem pretty_shape_witness:
  "nil_free (Plus (Mult (Num 1) (Num 2)) (Or (And (Bool True) (Num 7)) (Num 0)))
   \<and> depth (Plus (Mult (Num 1) (Num 2)) (Or (And (Bool True) (Num 7)) (Num 0))) \<le> 4
   \<and> pretty_within 4 (Plus (Mult (Num 1) (Num 2)) (Or (And (Bool True) (Num 7)) (Num 0)))
       = Inr ''((1*2)+((true&&7)||0))''
   \<and> binary_nodes (Plus (Mult (Num 1) (Num 2)) (Or (And (Bool True) (Num 7)) (Num 0))) = 4
   \<and> count_list ''((1*2)+((true&&7)||0))'' CHR ''('' = 4
   \<and> count_list ''((1*2)+((true&&7)||0))'' CHR '')'' = 4
   \<and> paren_depth 0 ''((1*2)+((true&&7)||0))'' = Some 0
   \<and> (\<exists>s. pretty_within 4 (Plus (Mult (Num 1) (Num 2)) (Or (And (Bool True) (Num 7)) (Num 0)))
              = Inr s
          \<and> pretty (Plus (Mult (Num 1) (Num 2)) (Or (And (Bool True) (Num 7)) (Num 0))) = Some s
          \<and> count_list s CHR ''('' =
              binary_nodes (Plus (Mult (Num 1) (Num 2)) (Or (And (Bool True) (Num 7)) (Num 0)))
          \<and> count_list s CHR '')'' =
              binary_nodes (Plus (Mult (Num 1) (Num 2)) (Or (And (Bool True) (Num 7)) (Num 0)))
          \<and> paren_depth 0 s = Some 0)"
proof -
  have n: "nil_free (Plus (Mult (Num 1) (Num 2)) (Or (And (Bool True) (Num 7)) (Num 0)))"
    by simp
  have d: "depth (Plus (Mult (Num 1) (Num 2)) (Or (And (Bool True) (Num 7)) (Num 0))) \<le> 4"
    by simp
  have w: "pretty_within 4 (Plus (Mult (Num 1) (Num 2)) (Or (And (Bool True) (Num 7)) (Num 0)))
       = Inr ''((1*2)+((true&&7)||0))''"
    by code_simp
  have b: "binary_nodes (Plus (Mult (Num 1) (Num 2)) (Or (And (Bool True) (Num 7)) (Num 0))) = 4"
    by simp
  have c1: "count_list ''((1*2)+((true&&7)||0))'' CHR ''('' = 4"
    by code_simp
  have c2: "count_list ''((1*2)+((true&&7)||0))'' CHR '')'' = 4"
    by code_simp
  have pd: "paren_depth 0 ''((1*2)+((true&&7)||0))'' = Some 0"
    by code_simp
  have ex: "\<exists>s. pretty_within 4 (Plus (Mult (Num 1) (Num 2)) (Or (And (Bool True) (Num 7)) (Num 0)))
              = Inr s
          \<and> pretty (Plus (Mult (Num 1) (Num 2)) (Or (And (Bool True) (Num 7)) (Num 0))) = Some s
          \<and> count_list s CHR ''('' =
              binary_nodes (Plus (Mult (Num 1) (Num 2)) (Or (And (Bool True) (Num 7)) (Num 0)))
          \<and> count_list s CHR '')'' =
              binary_nodes (Plus (Mult (Num 1) (Num 2)) (Or (And (Bool True) (Num 7)) (Num 0)))
          \<and> paren_depth 0 s = Some 0"
    using pretty_shape [OF n d] by blast
  show ?thesis
    using n d w b c1 c2 pd ex by blast
qed

text \<open>
  C9. \<open>showVal\<close> goes by the flag: \<open>Undefined\<close> gives the string \<open>Undefined\<close>, \<open>ValueInt\<close>
  the decimal string of the integer field, \<open>ValueBool\<close> the string \<open>true\<close> or \<open>false\<close>.
  On an \<open>IntVal\<close> or a \<open>BoolVal\<close> it is what \<open>pretty\<close> returns for the literal, and on
  the result of an evaluation it is \<open>Undefined\<close> exactly when the result is
  \<open>UndefinedVal\<close>.
\<close>

theorem showVal_by_tag:
  "(flag v = Undefined \<longrightarrow> showVal v = ''Undefined'')
   \<and> (flag v = ValueInt \<longrightarrow> showVal v = Itoa (sint (valI v)))
   \<and> (flag v = ValueBool \<longrightarrow> showVal v = (if valB v then ''true'' else ''false''))
   \<and> showVal mkUndefined = ''Undefined''
   \<and> Some (showVal (mkInt i)) = pretty (Num i)
   \<and> Some (showVal (mkBool b)) = pretty (Bool b)
   \<and> (eval e = Some w \<longrightarrow>
        (showVal w = ''Undefined'' \<longleftrightarrow> w = mkUndefined)
        \<and> (is_IntVal w \<longrightarrow> Some (showVal w) = pretty (Num (valI w)))
        \<and> (is_BoolVal w \<longrightarrow> Some (showVal w) = pretty (Bool (valB w))))"
proof -
  have tags: "(flag v = Undefined \<longrightarrow> showVal v = ''Undefined'')
     \<and> (flag v = ValueInt \<longrightarrow> showVal v = Itoa (sint (valI v)))
     \<and> (flag v = ValueBool \<longrightarrow> showVal v = (if valB v then ''true'' else ''false''))"
    by (simp add: showVal_def Num_pretty_def Bool_pretty_def)
  have lits: "showVal mkUndefined = ''Undefined''
     \<and> Some (showVal (mkInt i)) = pretty (Num i)
     \<and> Some (showVal (mkBool b)) = pretty (Bool b)"
    by (simp add: showVal_def)
  have undef: "eval e = Some w \<longrightarrow> (showVal w = ''Undefined'' \<longleftrightarrow> w = mkUndefined)"
    using eval_is_Val [of e w] showVal_Undefined_iff [of w] by blast
  have int: "is_IntVal w \<longrightarrow> Some (showVal w) = pretty (Num (valI w))"
  proof
    assume "is_IntVal w"
    then have "flag w = ValueInt"
      by (metis is_IntVal_def mk_fields(1))
    then show "Some (showVal w) = pretty (Num (valI w))"
      by (simp add: showVal_def)
  qed
  have bool: "is_BoolVal w \<longrightarrow> Some (showVal w) = pretty (Bool (valB w))"
  proof
    assume "is_BoolVal w"
    then have "flag w = ValueBool"
      by (metis is_BoolVal_def mk_fields(4))
    then show "Some (showVal w) = pretty (Bool (valB w))"
      by (simp add: showVal_def)
  qed
  show ?thesis
    using tags lits undef int bool by blast
qed

theorem showVal_by_tag_witness:
  "flag mkUndefined = Undefined \<and> flag (mkInt 5) = ValueInt \<and> flag (mkBool True) = ValueBool
   \<and> eval (And (Bool True) (Num 0)) = Some mkUndefined
   \<and> eval (Num 5) = Some (mkInt 5) \<and> is_IntVal (mkInt 5)
   \<and> eval (Bool True) = Some (mkBool True) \<and> is_BoolVal (mkBool True)
   \<and> showVal mkUndefined = ''Undefined''
   \<and> showVal (mkInt 5) = ''5''
   \<and> showVal (mkBool True) = ''true''
   \<and> pretty (Num 5) = Some ''5''"
proof -
  have five: "Itoa 5 = ''5''"
    by code_simp
  show ?thesis
    using showVal_by_tag [of mkUndefined 0 False "And (Bool True) (Num 0)" mkUndefined]
      showVal_by_tag [of "mkInt 5" 0 False "Num 5" "mkInt 5"]
      showVal_by_tag [of "mkBool True" 0 False "Bool True" "mkBool True"]
      five
    by (simp add: is_IntVal_def is_BoolVal_def Num_pretty_def)
qed

end
